theory Spec2Isabelle
  imports Complex_Main "HOL-Library.Multiset" "HOL-Library.Word"
begin

section \<open>JavaScript values\<close>

text \<open>
  A string is the list of its UTF-16 code units. \<open>ascii\<close> gives the string of a literal
  of the source, whose characters are all ASCII.
\<close>

type_synonym jsstring = "16 word list"

definition ascii :: "string \<Rightarrow> jsstring" where
  "ascii s = map (\<lambda>c. of_nat (of_char c)) s"

text \<open>
  The request body, the items of a batch and the reply of the inference API are values
  parsed from JSON; reading a missing property gives \<open>undefined\<close>. An object is the list
  of its own properties. A number carries its value; the service reads of a number only
  whether it is zero.
\<close>

datatype jsval =
    JUndefined
  | JNull
  | JBool bool
  | JNum rat
  | JStr jsstring
  | JArr "jsval list"
  | JObj "(jsstring \<times> jsval) list"

datatype error = TypeError | ApiError | ValidationError | WriteError | ReadError

text \<open>\<open>v == null\<close>: the two values on which a property read throws.\<close>

fun nullish :: "jsval \<Rightarrow> bool" where
  "nullish JUndefined = True"
| "nullish JNull = True"
| "nullish _ = False"

text \<open>The truth value \<open>!v\<close> negates.\<close>

fun truthy :: "jsval \<Rightarrow> bool" where
  "truthy JUndefined = False"
| "truthy JNull = False"
| "truthy (JBool b) = b"
| "truthy (JNum n) = (n \<noteq> 0)"
| "truthy (JStr s) = (s \<noteq> [])"
| "truthy (JArr _) = True"
| "truthy (JObj _) = True"

text \<open>\<open>Array.isArray(v)\<close>.\<close>

fun isArray :: "jsval \<Rightarrow> bool" where
  "isArray (JArr _) = True"
| "isArray _ = False"

text \<open>
  The value of a named property of a value that is not nullish. The names read by the
  service (\<open>blogs\<close>, \<open>title\<close>, \<open>details\<close>, \<open>choices\<close>, \<open>message\<close>, \<open>content\<close>) are
  properties of no built-in prototype, so only an object can have them.
\<close>

fun own :: "jsstring \<Rightarrow> jsval \<Rightarrow> jsval" where
  "own k (JObj kvs) = (case map_of kvs k of None \<Rightarrow> JUndefined | Some v \<Rightarrow> v)"
| "own k _ = JUndefined"

text \<open>\<open>v.k\<close> and the destructuring \<open>const { k } = v\<close>: a TypeError on a nullish value.\<close>

definition get_prop :: "jsstring \<Rightarrow> jsval \<Rightarrow> error + jsval" where
  "get_prop k v = (if nullish v then Inl TypeError else Inr (own k v))"

text \<open>\<open>v?.k\<close>: \<open>undefined\<close> on a nullish value.\<close>

definition opt_prop :: "jsstring \<Rightarrow> jsval \<Rightarrow> jsval" where
  "opt_prop k v = (if nullish v then JUndefined else own k v)"

text \<open>
  \<open>v?.[0]\<close>: the first element of an array, the property \<open>0\<close> of an object, the first
  code unit of a string, \<open>undefined\<close> otherwise.
\<close>

fun opt_first :: "jsval \<Rightarrow> jsval" where
  "opt_first (JArr []) = JUndefined"
| "opt_first (JArr (x # xs)) = x"
| "opt_first (JObj kvs) = own (ascii ''0'') (JObj kvs)"
| "opt_first (JStr []) = JUndefined"
| "opt_first (JStr (c # cs)) = JStr [c]"
| "opt_first _ = JUndefined"

text \<open>
  \<open>String.prototype.trim\<close> removes from both ends the code units of white space and the
  line terminators: TAB, LF, VT, FF, CR, SPACE, NO-BREAK SPACE, OGHAM SPACE MARK, the
  spaces from EN QUAD to HAIR SPACE, LINE SEPARATOR, PARAGRAPH SEPARATOR, NARROW
  NO-BREAK SPACE, MEDIUM MATHEMATICAL SPACE, IDEOGRAPHIC SPACE and the BYTE ORDER MARK.
\<close>

definition white :: "16 word \<Rightarrow> bool" where
  "white c = (c \<in> set [0x0009, 0x000A, 0x000B, 0x000C, 0x000D, 0x0020, 0x00A0, 0x1680,
      0x2000, 0x2001, 0x2002, 0x2003, 0x2004, 0x2005, 0x2006, 0x2007, 0x2008, 0x2009, 0x200A,
      0x2028, 0x2029, 0x202F, 0x205F, 0x3000, 0xFEFF])"

definition trim :: "jsstring \<Rightarrow> jsstring" where
  "trim s = rev (dropWhile white (rev (dropWhile white s)))"

text \<open>
  \<open>v?.trim()\<close>: \<open>undefined\<close> on a nullish value, the trimmed string on a string, and a
  TypeError on anything else, which has no method \<open>trim\<close> to call.
\<close>

fun opt_trim :: "jsval \<Rightarrow> error + jsval" where
  "opt_trim JUndefined = Inr JUndefined"
| "opt_trim JNull = Inr JUndefined"
| "opt_trim (JStr s) = Inr (JStr (trim s))"
| "opt_trim _ = Inl TypeError"

text \<open>\<open>a || b\<close>.\<close>

definition or_else :: "jsval \<Rightarrow> jsval \<Rightarrow> jsval" where
  "or_else a b = (if truthy a then a else b)"

text \<open>
  Whether the conversion to a string that a template literal applies to \<open>${v}\<close> returns.
  An object is converted by its method \<open>toString\<close>: the inherited one returns, but an
  own property \<open>toString\<close> of an object parsed from JSON hides it and is no function, and
  neither the inherited \<open>valueOf\<close>, which returns the object, nor an own one helps: the
  conversion throws a TypeError. An array is converted by joining the conversions of
  its elements (nothing for a nullish element), and throws when one of them does. All
  other values have a string.
\<close>

fun interpolates :: "jsval \<Rightarrow> bool" where
  "interpolates (JObj kvs) = (map_of kvs (ascii ''toString'') = None)"
| "interpolates (JArr xs) = list_all interpolates xs"
| "interpolates _ = True"

section \<open>The document store and the environment\<close>

text \<open>
  A document of the collection \<open>Blog\<close>, with the four paths of \<open>blogSchema\<close>; \<open>createdAt\<close>
  is a date, in milliseconds. The collection is the list of its documents, in the order
  in which they were written. The identifier and the version key that the database
  driver adds to a document are read by no route and are left out.
\<close>

record blog =
  title :: jsval
  details :: jsval
  content :: jsval
  createdAt :: int

text \<open>
  What the service shares between requests is the collection. \<open>api_calls\<close> counts the
  calls of \<open>client.chatCompletion\<close> made so far.
\<close>

record world =
  store :: "blog list"
  api_calls :: nat

text \<open>
  What the outside decides about one call of \<open>generateBlog\<close>: the outcome of
  \<open>client.chatCompletion\<close> (an error thrown, or the reply), the value of \<open>Date.now\<close>
  when the document is built, what the schema type \<open>String\<close> makes of a value that is
  neither a string nor nullish (\<open>None\<close>: it cannot be cast, and validation fails), and
  whether the write of \<open>blog.save()\<close> succeeds. The text of the prompt and the fixed
  parameters of the request reach only the external model, whose reply is the field
  \<open>api\<close>.
\<close>

record call_env =
  api :: "error + jsval"
  now :: int
  cast_other :: "jsval \<Rightarrow> jsval option"
  write_ok :: bool

text \<open>
  What the outside decides about one query of \<open>GET /blog\<close>: whether the query resolves,
  and in which order the database returns documents of the same \<open>createdAt\<close>, for which
  the query names no order: by the rank it gives to their positions in the collection.
\<close>

record read_env =
  resolves :: bool
  rank :: "nat \<Rightarrow> nat"

section \<open>generateBlog\<close>

definition no_content :: jsstring where
  "no_content = ascii ''No content generated.''"

definition failed :: jsstring where
  "failed = ascii ''Failed to generate blog.''"

text \<open>
  \<open>response?.choices?.[0]?.message?.content?.trim() || "No content generated."\<close>
\<close>

definition first_message :: "jsval \<Rightarrow> jsval" where
  "first_message response =
     opt_prop (ascii ''content'')
       (opt_prop (ascii ''message'') (opt_first (opt_prop (ascii ''choices'') response)))"

definition extract_content :: "jsval \<Rightarrow> error + jsval" where
  "extract_content response =
     (case opt_trim (first_message response) of
        Inl e \<Rightarrow> Inl e
      | Inr t \<Rightarrow> Inr (or_else t (JStr no_content)))"

text \<open>
  A path of type \<open>String\<close> keeps a string and a nullish value as they are.
\<close>

fun cast_String :: "call_env \<Rightarrow> jsval \<Rightarrow> jsval option" where
  "cast_String e (JStr s) = Some (JStr s)"
| "cast_String e JUndefined = Some JUndefined"
| "cast_String e JNull = Some JNull"
| "cast_String e v = cast_other e v"

text \<open>
  \<open>new Blog({ title, details, content })\<close> followed by \<open>await blog.save()\<close>: the three
  values are cast, \<open>createdAt\<close> takes its default, and the document is appended to the
  collection. A value that cannot be cast, or a write that fails, rejects the save.
\<close>

definition new_Blog :: "call_env \<Rightarrow> jsval \<Rightarrow> jsval \<Rightarrow> jsval \<Rightarrow> error + blog" where
  "new_Blog e ttl dtl cnt =
     (case cast_String e ttl of
        None \<Rightarrow> Inl ValidationError
      | Some t \<Rightarrow>
          (case cast_String e dtl of
             None \<Rightarrow> Inl ValidationError
           | Some d \<Rightarrow>
               (case cast_String e cnt of
                  None \<Rightarrow> Inl ValidationError
                | Some c \<Rightarrow>
                    Inr \<lparr>title = t, details = d, content = c, createdAt = now e\<rparr>)))"

definition save :: "call_env \<Rightarrow> blog \<Rightarrow> blog list \<Rightarrow> error + blog list" where
  "save e b st = (if write_ok e then Inr (st @ [b]) else Inl WriteError)"

text \<open>The body of the \<open>try\<close> block: the document saved and the collection after it.\<close>

definition attempt ::
  "call_env \<Rightarrow> jsval \<Rightarrow> jsval \<Rightarrow> blog list \<Rightarrow> error + (blog \<times> blog list)" where
  "attempt e ttl dtl st =
     (case api e of
        Inl err \<Rightarrow> Inl err
      | Inr response \<Rightarrow>
          (case extract_content response of
             Inl err \<Rightarrow> Inl err
           | Inr cnt \<Rightarrow>
               (case new_Blog e ttl dtl cnt of
                  Inl err \<Rightarrow> Inl err
                | Inr b \<Rightarrow>
                    (case save e b st of
                       Inl err \<Rightarrow> Inl err
                     | Inr st' \<Rightarrow> Inr (b, st')))))"

text \<open>
  What \<open>generateBlog\<close> returns: the saved document, or the plain object of the \<open>catch\<close>
  block, given by its properties in order.
\<close>

datatype result = Document blog | Plain "(jsstring \<times> jsval) list"

definition placeholder :: "jsval \<Rightarrow> jsval \<Rightarrow> result" where
  "placeholder ttl dtl =
     Plain [(ascii ''title'', ttl), (ascii ''details'', dtl), (ascii ''content'', JStr failed)]"

text \<open>
  \<open>generateBlog(title, details)\<close>. \<open>env\<close> gives the outside's decisions for each call of
  the API, by the number of the call. The prompt is built first, outside the \<open>try\<close>
  block, by interpolating the title and then the details into a fixed text: when one of
  the two conversions throws, \<open>generateBlog\<close> throws, before any call of the API. Every
  later step is inside the \<open>try\<close> block, and each of its failures ends in the \<open>catch\<close>
  block, which writes nothing and returns the placeholder.
\<close>

definition generateBlog ::
  "(nat \<Rightarrow> call_env) \<Rightarrow> jsval \<Rightarrow> jsval \<Rightarrow> world \<Rightarrow> (error + result) \<times> world" where
  "generateBlog env ttl dtl w =
     (if \<not> interpolates ttl then (Inl TypeError, w)
      else if \<not> interpolates dtl then (Inl TypeError, w)
      else
        (case attempt (env (api_calls w)) ttl dtl (store w) of
           Inr (b, st') \<Rightarrow>
             (Inr (Document b), \<lparr>store = st', api_calls = Suc (api_calls w)\<rparr>)
         | Inl err \<Rightarrow>
             (Inr (placeholder ttl dtl), \<lparr>store = store w, api_calls = Suc (api_calls w)\<rparr>)))"

text \<open>The \<open>content\<close> of what \<open>generateBlog\<close> returned.\<close>

fun result_content :: "result \<Rightarrow> jsval" where
  "result_content (Document b) = content b"
| "result_content (Plain kvs) = own (ascii ''content'') (JObj kvs)"

section \<open>The routes\<close>

datatype payload =
    ErrorMessage string
  | Generated "result list"
  | Listing "blog list"

record response =
  status :: nat
  payload :: payload

text \<open>
  The loop \<open>for (const b of blogs)\<close> of \<open>POST /generate\<close>, with \<open>results\<close> as its
  accumulator. Reading \<open>b.title\<close> of a nullish item throws out of the loop, and so does
  a call of \<open>generateBlog\<close> that throws.
\<close>

fun generate_loop ::
  "(nat \<Rightarrow> call_env) \<Rightarrow> jsval list \<Rightarrow> result list \<Rightarrow> world \<Rightarrow> (error + result list) \<times> world" where
  "generate_loop env [] results w = (Inr results, w)"
| "generate_loop env (b # bs) results w =
     (case get_prop (ascii ''title'') b of
        Inl err \<Rightarrow> (Inl err, w)
      | Inr ttl \<Rightarrow>
          (case get_prop (ascii ''details'') b of
             Inl err \<Rightarrow> (Inl err, w)
           | Inr dtl \<Rightarrow>
               (case generateBlog env ttl dtl w of
                  (Inl err, w') \<Rightarrow> (Inl err, w')
                | (Inr generated, w') \<Rightarrow> generate_loop env bs (results @ [generated]) w')))"

fun elements :: "jsval \<Rightarrow> jsval list" where
  "elements (JArr xs) = xs"
| "elements _ = []"

definition server_error :: response where
  "server_error = \<lparr>status = 500, payload = ErrorMessage ''Failed to generate blogs''\<rparr>"

definition bad_request :: response where
  "bad_request =
     \<lparr>status = 400,
      payload = ErrorMessage ''Please provide blogs as an array of { title, details }''\<rparr>"

text \<open>
  \<open>POST /generate\<close>: every throw inside the handler ends in its \<open>catch\<close> block, which
  answers 500.
\<close>

definition post_generate ::
  "(nat \<Rightarrow> call_env) \<Rightarrow> jsval \<Rightarrow> world \<Rightarrow> response \<times> world" where
  "post_generate env body w =
     (case get_prop (ascii ''blogs'') body of
        Inl err \<Rightarrow> (server_error, w)
      | Inr blogs \<Rightarrow>
          if \<not> truthy blogs \<or> \<not> isArray blogs then (bad_request, w)
          else
            (case generate_loop env (elements blogs) [] w of
               (Inl err, w') \<Rightarrow> (server_error, w')
             | (Inr results, w') \<Rightarrow> (\<lparr>status = 200, payload = Generated results\<rparr>, w')))"

text \<open>
  \<open>Blog.find().sort({ createdAt: -1 })\<close>. A query that resolves gives every document of
  the collection, the newest first. The query names no order for documents of the same
  \<open>createdAt\<close>: the database returns them by the rank the outside gives to their
  positions (and by position when it ranks two alike), so every order of such documents
  is the answer for some ranking. The documents are sorted with their positions, by
  insertion into the sorted rest.
\<close>

definition newer :: "(nat \<Rightarrow> nat) \<Rightarrow> nat \<times> blog \<Rightarrow> nat \<times> blog \<Rightarrow> bool" where
  "newer r p q =
     (createdAt (snd q) < createdAt (snd p) \<or>
      (createdAt (snd q) = createdAt (snd p) \<and>
       (r (fst p) < r (fst q) \<or> (r (fst p) = r (fst q) \<and> fst p \<le> fst q))))"

fun insert_newest ::
  "(nat \<Rightarrow> nat) \<Rightarrow> nat \<times> blog \<Rightarrow> (nat \<times> blog) list \<Rightarrow> (nat \<times> blog) list" where
  "insert_newest r p [] = [p]"
| "insert_newest r p (q # qs) =
     (if newer r p q then p # q # qs else q # insert_newest r p qs)"

fun sort_newest :: "(nat \<Rightarrow> nat) \<Rightarrow> (nat \<times> blog) list \<Rightarrow> (nat \<times> blog) list" where
  "sort_newest r [] = []"
| "sort_newest r (p # ps) = insert_newest r p (sort_newest r ps)"

definition find_sorted :: "read_env \<Rightarrow> blog list \<Rightarrow> error + blog list" where
  "find_sorted q st =
     (if resolves q then Inr (map snd (sort_newest (rank q) (enumerate 0 st)))
      else Inl ReadError)"

text \<open>
  \<open>GET /blog\<close> awaits the query outside any \<open>try\<close> block: when the query is rejected the
  handler throws and sends no answer of its own. The route reads the collection and
  leaves the shared state as it is.
\<close>

definition get_blog :: "read_env \<Rightarrow> world \<Rightarrow> (error + response) \<times> world" where
  "get_blog q w =
     (case find_sorted q (store w) of
        Inl err \<Rightarrow> (Inl err, w)
      | Inr blogs \<Rightarrow> (Inr \<lparr>status = 200, payload = Listing blogs\<rparr>, w))"

section \<open>Conditions on the inputs\<close>

text \<open>A string, or no value: what a path of type \<open>String\<close> keeps unchanged.\<close>

fun text_or_absent :: "jsval \<Rightarrow> bool" where
  "text_or_absent (JStr s) = True"
| "text_or_absent JUndefined = True"
| "text_or_absent JNull = True"
| "text_or_absent _ = False"

text \<open>
  \<open>blog.save()\<close> resolves for a title and details: both can be cast, and the write
  succeeds.
\<close>

definition save_resolves :: "call_env \<Rightarrow> jsval \<Rightarrow> jsval \<Rightarrow> bool" where
  "save_resolves e ttl dtl =
     (write_ok e \<and> cast_String e ttl \<noteq> None \<and> cast_String e dtl \<noteq> None)"

text \<open>
  An item of a batch from which \<open>generateBlog\<close> can be called and builds its prompt: the
  item is not nullish, and its title and details interpolate.
\<close>

definition pair_ok :: "jsval \<Rightarrow> bool" where
  "pair_ok b =
     (\<not> nullish b \<and> interpolates (own (ascii ''title'') b) \<and>
      interpolates (own (ascii ''details'') b))"

section \<open>A sample run\<close>

text \<open>
  A reply of the inference API with one message; an outside whose second call of the API
  throws and whose third write fails; a batch of three pairs, and an item whose title
  has an own property \<open>toString\<close>; a collection of three documents written out of the
  order of their dates, and the same documents in another order; a collection of two
  documents of one date; a query that resolves, one that resolves with another ranking,
  and one that is rejected.
\<close>

definition chat_reply :: "jsstring \<Rightarrow> jsval" where
  "chat_reply s =
     JObj [(ascii ''choices'',
            JArr [JObj [(ascii ''message'',
                         JObj [(ascii ''role'', JStr (ascii ''assistant'')),
                               (ascii ''content'', JStr s)])]])]"

definition sample_env :: "nat \<Rightarrow> call_env" where
  "sample_env k =
     \<lparr>api = (if k = 1 then Inl ApiError else Inr (chat_reply (ascii ''  Hello  ''))),
      now = 1000 + int k,
      cast_other = (\<lambda>v. None),
      write_ok = (k \<noteq> 2)\<rparr>"

definition empty_world :: world where
  "empty_world = \<lparr>store = [], api_calls = 0\<rparr>"

definition sample_pair :: "string \<Rightarrow> string \<Rightarrow> jsval" where
  "sample_pair t d = JObj [(ascii ''title'', JStr (ascii t)), (ascii ''details'', JStr (ascii d))]"

definition sample_items :: "jsval list" where
  "sample_items =
     [sample_pair ''Sets'' ''basics'', sample_pair ''Maps'' ''lookup'',
      sample_pair ''Loops'' ''for and while'']"

definition sample_request :: jsval where
  "sample_request = JObj [(ascii ''blogs'', JArr sample_items)]"

definition odd_title :: jsval where
  "odd_title = JObj [(ascii ''toString'', JNum 1)]"

definition odd_request :: jsval where
  "odd_request =
     JObj [(ascii ''blogs'',
            JArr [JObj [(ascii ''title'', odd_title), (ascii ''details'', JStr (ascii ''d''))],
                  sample_pair ''Maps'' ''lookup''])]"

definition sample_doc :: "string \<Rightarrow> int \<Rightarrow> blog" where
  "sample_doc t ms =
     \<lparr>title = JStr (ascii t), details = JStr (ascii ''notes''), content = JStr (ascii ''text''),
      createdAt = ms\<rparr>"

definition shelf :: world where
  "shelf = \<lparr>store = [sample_doc ''b'' 2000, sample_doc ''a'' 1000, sample_doc ''c'' 3000],
            api_calls = 3\<rparr>"

definition shelf' :: world where
  "shelf' = \<lparr>store = [sample_doc ''a'' 1000, sample_doc ''c'' 3000, sample_doc ''b'' 2000],
            api_calls = 3\<rparr>"

definition twins :: world where
  "twins = \<lparr>store = [sample_doc ''a'' 1000, sample_doc ''b'' 1000], api_calls = 2\<rparr>"

definition sample_read :: read_env where
  "sample_read = \<lparr>resolves = True, rank = (\<lambda>i. i)\<rparr>"

definition other_read :: read_env where
  "other_read = \<lparr>resolves = True, rank = (\<lambda>i. 10 - i)\<rparr>"

definition failed_read :: read_env where
  "failed_read = \<lparr>resolves = False, rank = (\<lambda>i. i)\<rparr>"

section \<open>Properties of strings\<close>

lemma ascii_inj [simp]: "ascii s = ascii t \<longleftrightarrow> s = t"
proof -
  have "inj (\<lambda>c::char. (of_nat (of_char c) :: 16 word))"
  proof (rule injI)
    fix x y :: char
    assume "(of_nat (of_char x) :: 16 word) = of_nat (of_char y)"
    then have "unat (of_nat (of_char x :: nat) :: 16 word) =
        unat (of_nat (of_char y :: nat) :: 16 word)"
      by simp
    moreover have "(of_char x :: nat) < 256" "(of_char y :: nat) < 256" by simp_all
    ultimately have "(of_char x :: nat) = of_char y"
      by (simp add: unat_of_nat take_bit_nat_eq_self)
    then show "x = y" by simp
  qed
  then show ?thesis by (simp add: ascii_def inj_map_eq_map)
qed

section \<open>Properties of generateBlog\<close>

lemma attempt_api_fails: "api e = Inl err \<Longrightarrow> attempt e ttl dtl st = Inl err"
  by (simp add: attempt_def)

lemma attempt_Inr:
  "attempt e ttl dtl st = Inr (b, st') \<Longrightarrow>
     st' = st @ [b] \<and> write_ok e \<and>
     (\<exists>r c. api e = Inr r \<and> extract_content r = Inr c \<and> new_Blog e ttl dtl c = Inr b)"
  by (auto simp: attempt_def save_def split: sum.splits if_splits)

text \<open>Whether the \<open>try\<close> block fails does not depend on the collection.\<close>

lemma attempt_Inl_any_store:
  "attempt e ttl dtl st = Inl err \<Longrightarrow> attempt e ttl dtl st' = Inl err"
  by (auto simp: attempt_def save_def split: sum.splits if_splits)

text \<open>A title or details that do not interpolate: the call throws, and nothing happened.\<close>

lemma generateBlog_throws:
  "\<not> (interpolates ttl \<and> interpolates dtl) \<Longrightarrow>
   generateBlog env ttl dtl w = (Inl TypeError, w)"
  by (auto simp: generateBlog_def)

text \<open>Otherwise the call returns, and calls the API once.\<close>

lemma generateBlog_returns:
  assumes "interpolates ttl" and "interpolates dtl"
  shows "\<exists>g. fst (generateBlog env ttl dtl w) = Inr g \<and>
             api_calls (snd (generateBlog env ttl dtl w)) = Suc (api_calls w)"
  using assms by (simp add: generateBlog_def split: sum.splits prod.splits)

lemma generateBlog_store:
  "\<exists>new. store (snd (generateBlog env ttl dtl w)) = store w @ new"
  by (auto simp: generateBlog_def split: sum.splits prod.splits dest: attempt_Inr)

lemma generateBlog_failure:
  assumes "interpolates ttl" and "interpolates dtl"
    and "attempt (env (api_calls w)) ttl dtl (store w) = Inl err"
  shows "generateBlog env ttl dtl w =
     (Inr (placeholder ttl dtl), \<lparr>store = store w, api_calls = Suc (api_calls w)\<rparr>)"
  using assms by (simp add: generateBlog_def)

lemma generateBlog_success:
  assumes "interpolates ttl" and "interpolates dtl"
    and "attempt (env (api_calls w)) ttl dtl (store w) = Inr (b, st')"
  shows "generateBlog env ttl dtl w =
     (Inr (Document b), \<lparr>store = st', api_calls = Suc (api_calls w)\<rparr>)"
  using assms by (simp add: generateBlog_def)

lemma cast_text: "text_or_absent v \<Longrightarrow> cast_String e v = Some v"
  by (cases v) simp_all

lemma extract_text:
  "first_message r = JStr s \<Longrightarrow>
   extract_content r = Inr (JStr (if trim s = [] then no_content else trim s))"
  by (simp add: extract_content_def or_else_def)

lemma extract_absent:
  "nullish (first_message r) \<Longrightarrow> extract_content r = Inr (JStr no_content)"
  by (cases "first_message r") (simp_all add: extract_content_def or_else_def)

text \<open>A content that is neither a string nor absent has no \<open>trim\<close>: the call throws.\<close>

lemma extract_not_text:
  "\<not> text_or_absent (first_message r) \<Longrightarrow> extract_content r = Inl TypeError"
  by (cases "first_message r") (simp_all add: extract_content_def)

lemma extract_nonempty:
  "extract_content r = Inr c \<Longrightarrow> \<exists>s. c = JStr s \<and> s \<noteq> []"
  by (cases "first_message r")
     (auto simp: extract_content_def or_else_def no_content_def ascii_def split: if_splits)

lemma attempt_success:
  assumes "api e = Inr r" and "extract_content r = Inr c" and "save_resolves e ttl dtl"
  shows "\<exists>b. attempt e ttl dtl st = Inr (b, st @ [b]) \<and> content b = c \<and>
             cast_String e ttl = Some (title b) \<and> cast_String e dtl = Some (details b) \<and>
             createdAt b = now e"
proof -
  from assms(2) obtain s where c: "c = JStr s" using extract_nonempty by blast
  from assms(3) obtain t d where
    t: "cast_String e ttl = Some t" and d: "cast_String e dtl = Some d" and ok: "write_ok e"
    by (auto simp: save_resolves_def)
  show ?thesis
    using assms(1,2) c t d ok by (simp add: attempt_def new_Blog_def save_def)
qed

section \<open>Properties of the loop of POST /generate\<close>

text \<open>The accumulator does not influence the state the loop leaves.\<close>

lemma loop_snd_acc:
  "snd (generate_loop env bs acc w) = snd (generate_loop env bs acc' w)"
proof (induction bs arbitrary: acc acc' w)
  case Nil
  show ?case by simp
next
  case (Cons b bs)
  show ?case
  proof (cases "nullish b")
    case True
    then show ?thesis by (simp add: get_prop_def)
  next
    case False
    obtain g w1 where
      g: "generateBlog env (own (ascii ''title'') b) (own (ascii ''details'') b) w = (g, w1)"
      by (cases "generateBlog env (own (ascii ''title'') b) (own (ascii ''details'') b) w")
    show ?thesis
    proof (cases g)
      case (Inl err)
      with False g show ?thesis by (simp add: get_prop_def)
    next
      case (Inr r)
      with False g show ?thesis
        using Cons.IH [of "acc @ [r]" w1 "acc' @ [r]"] by (simp add: get_prop_def)
    qed
  qed
qed

text \<open>The loop only appends to the collection, also when it is left by a throw.\<close>

lemma loop_store:
  "\<exists>new. store (snd (generate_loop env bs acc w)) = store w @ new"
proof (induction bs arbitrary: acc w)
  case Nil
  show ?case by simp
next
  case (Cons b bs)
  show ?case
  proof (cases "nullish b")
    case True
    then show ?thesis by (simp add: get_prop_def)
  next
    case False
    obtain g w1 where
      g: "generateBlog env (own (ascii ''title'') b) (own (ascii ''details'') b) w = (g, w1)"
      by (cases "generateBlog env (own (ascii ''title'') b) (own (ascii ''details'') b) w")
    obtain n1 where n1: "store w1 = store w @ n1"
      using generateBlog_store
        [of env "own (ascii ''title'') b" "own (ascii ''details'') b" w] g
      by auto
    show ?thesis
    proof (cases g)
      case (Inl err)
      with False g n1 show ?thesis by (simp add: get_prop_def)
    next
      case (Inr r)
      obtain n2 where n2: "store (snd (generate_loop env bs (acc @ [r]) w1)) = store w1 @ n2"
        using Cons.IH [of "acc @ [r]" w1] by blast
      from False g Inr n1 n2 show ?thesis by (simp add: get_prop_def)
    qed
  qed
qed

text \<open>
  On a batch of items that are not nullish and whose titles and details interpolate, the
  loop returns one result for each item: the \<open>i\<close>-th is what \<open>generateBlog\<close> returns
  for the \<open>i\<close>-th item in the state left by the items before it, and each item costs one
  call of the API.
\<close>

lemma loop_valid:
  "\<forall>b\<in>set bs. pair_ok b \<Longrightarrow>
   \<exists>rs. generate_loop env bs acc w = (Inr (acc @ rs), snd (generate_loop env bs [] w)) \<and>
        length rs = length bs \<and>
        api_calls (snd (generate_loop env bs [] w)) = api_calls w + length bs \<and>
        (\<forall>i<length bs. Inr (rs ! i) =
            fst (generateBlog env (own (ascii ''title'') (bs ! i))
                   (own (ascii ''details'') (bs ! i))
                   (snd (generate_loop env (take i bs) [] w))))"
proof (induction bs arbitrary: acc w)
  case Nil
  show ?case by simp
next
  case (Cons b bs)
  let ?t = "own (ascii ''title'') b" and ?d = "own (ascii ''details'') b"
  from Cons.prems have nb: "\<not> nullish b" and it: "interpolates ?t" and id: "interpolates ?d"
    and rest: "\<forall>b\<in>set bs. pair_ok b"
    by (simp_all add: pair_ok_def)
  obtain g where g0: "fst (generateBlog env ?t ?d w) = Inr g"
    and c0: "api_calls (snd (generateBlog env ?t ?d w)) = Suc (api_calls w)"
    using generateBlog_returns [OF it id, of env w] by blast
  define w1 where "w1 = snd (generateBlog env ?t ?d w)"
  have g: "generateBlog env ?t ?d w = (Inr g, w1)"
    using g0 by (simp add: w1_def prod_eq_iff)
  have w1c: "api_calls w1 = Suc (api_calls w)" using c0 by (simp add: w1_def)
  have step: "generate_loop env (b # bs) a w = generate_loop env bs (a @ [g]) w1" for a
    using nb g by (simp add: get_prop_def)
  from Cons.IH [OF rest, of "acc @ [g]" w1] obtain rs where
    rs: "generate_loop env bs (acc @ [g]) w1 =
           (Inr ((acc @ [g]) @ rs), snd (generate_loop env bs [] w1))"
    and len: "length rs = length bs"
    and calls: "api_calls (snd (generate_loop env bs [] w1)) = api_calls w1 + length bs"
    and nth: "\<forall>i<length bs. Inr (rs ! i) =
            fst (generateBlog env (own (ascii ''title'') (bs ! i))
                   (own (ascii ''details'') (bs ! i))
                   (snd (generate_loop env (take i bs) [] w1)))"
    by blast
  have snd_eq: "snd (generate_loop env (b # bs) [] w) = snd (generate_loop env bs [] w1)"
    using step [of "[]"] loop_snd_acc [of env bs "[] @ [g]" w1 "[]"] by simp
  have snd_take: "snd (generate_loop env (take (Suc j) (b # bs)) [] w) =
      snd (generate_loop env (take j bs) [] w1)" for j
    using nb g loop_snd_acc [of env "take j bs" "[g]" w1 "[]"] by (simp add: get_prop_def)
  have nth': "Inr ((g # rs) ! i) =
            fst (generateBlog env (own (ascii ''title'') ((b # bs) ! i))
                   (own (ascii ''details'') ((b # bs) ! i))
                   (snd (generate_loop env (take i (b # bs)) [] w)))" if "i < length (b # bs)" for i
  proof (cases i)
    case 0
    then show ?thesis using g by simp
  next
    case (Suc j)
    with that have "j < length bs" by simp
    with nth Suc snd_take [of j] show ?thesis by simp
  qed
  show ?case
  proof (intro exI [of _ "g # rs"] conjI allI impI)
    show "generate_loop env (b # bs) acc w =
        (Inr (acc @ g # rs), snd (generate_loop env (b # bs) [] w))"
      using step [of acc] rs snd_eq by simp
    show "length (g # rs) = length (b # bs)" using len by simp
    show "api_calls (snd (generate_loop env (b # bs) [] w)) = api_calls w + length (b # bs)"
      using snd_eq calls w1c by simp
    show "Inr ((g # rs) ! i) =
            fst (generateBlog env (own (ascii ''title'') ((b # bs) ! i))
                   (own (ascii ''details'') ((b # bs) ! i))
                   (snd (generate_loop env (take i (b # bs)) [] w)))" if "i < length (b # bs)" for i
      using nth' that by blast
  qed
qed

section \<open>Properties of the routes\<close>

lemma post_generate_valid:
  assumes "\<not> nullish body" and "own (ascii ''blogs'') body = JArr items"
  shows "post_generate env body w =
     (case generate_loop env items [] w of
        (Inl err, w') \<Rightarrow> (server_error, w')
      | (Inr results, w') \<Rightarrow> (\<lparr>status = 200, payload = Generated results\<rparr>, w'))"
  using assms by (simp add: post_generate_def get_prop_def)

text \<open>Without a body the destructuring throws, and the route answers 500.\<close>

lemma post_generate_no_body:
  "nullish body \<Longrightarrow> post_generate env body w = (server_error, w)"
  by (simp add: post_generate_def get_prop_def)

text \<open>Reading the title of a nullish item throws: the route answers 500.\<close>

lemma post_generate_null_item:
  "post_generate env (JObj [(ascii ''blogs'', JArr [JNull])]) w = (server_error, w)"
  by (simp add: post_generate_def get_prop_def)

lemma post_generate_store:
  "\<exists>new. store (snd (post_generate env body w)) = store w @ new"
proof (cases "nullish body \<or> \<not> isArray (own (ascii ''blogs'') body)")
  case True
  then have "snd (post_generate env body w) = w"
    by (auto simp: post_generate_def get_prop_def)
  then show ?thesis by simp
next
  case False
  then obtain items where items: "own (ascii ''blogs'') body = JArr items"
    and nb: "\<not> nullish body"
    by (cases "own (ascii ''blogs'') body") auto
  have "snd (post_generate env body w) = snd (generate_loop env items [] w)"
    using post_generate_valid [OF nb items, of env w]
    by (simp split: prod.splits sum.splits)
  then show ?thesis using loop_store [of env items "[]" w] by simp
qed

lemma sample_valid:
  "\<not> nullish sample_request \<and> own (ascii ''blogs'') sample_request = JArr sample_items \<and>
   (\<forall>b\<in>set sample_items. pair_ok b)"
  by (simp add: sample_request_def sample_items_def sample_pair_def pair_ok_def)

section \<open>Properties of the listing\<close>

lemma newer_total: "\<not> newer r p q \<Longrightarrow> newer r q p"
  by (auto simp: newer_def)

lemma newer_trans: "newer r p q \<Longrightarrow> newer r q s \<Longrightarrow> newer r p s"
  by (auto simp: newer_def)

lemma newer_date: "newer r p q \<Longrightarrow> createdAt (snd q) \<le> createdAt (snd p)"
  by (auto simp: newer_def)

lemma mset_insert_newest: "mset (insert_newest r p ps) = add_mset p (mset ps)"
  by (induction ps) simp_all

lemma mset_sort_newest: "mset (sort_newest r ps) = mset ps"
  by (induction ps) (simp_all add: mset_insert_newest)

lemma set_insert_newest: "set (insert_newest r p ps) = insert p (set ps)"
  by (induction ps) auto

lemma sorted_insert_newest:
  "sorted_wrt (newer r) ps \<Longrightarrow> sorted_wrt (newer r) (insert_newest r p ps)"
proof (induction ps)
  case Nil
  show ?case by simp
next
  case (Cons q qs)
  show ?case
  proof (cases "newer r p q")
    case True
    have "\<forall>x\<in>set qs. newer r p x"
      using Cons.prems True by (auto intro: newer_trans)
    with True Cons.prems show ?thesis by simp
  next
    case False
    then have "newer r q p" by (rule newer_total)
    with False Cons show ?thesis by (auto simp: set_insert_newest)
  qed
qed

lemma sorted_sort_newest: "sorted_wrt (newer r) (sort_newest r ps)"
  by (induction ps) (simp_all add: sorted_insert_newest)

text \<open>
  A query that resolves gives the documents of the collection, each as often as it is
  stored, the newest first, whatever the ranking.
\<close>

lemma find_sorted_resolves:
  assumes "resolves q"
  shows "\<exists>bs. find_sorted q st = Inr bs \<and> mset bs = mset st \<and>
              sorted_wrt (\<lambda>a c. createdAt c \<le> createdAt a) bs"
proof -
  let ?ps = "sort_newest (rank q) (enumerate 0 st)"
  have "mset (map snd ?ps) = image_mset snd (mset ?ps)" by (rule mset_map)
  also have "\<dots> = image_mset snd (mset (enumerate 0 st))"
    by (simp only: mset_sort_newest)
  also have "\<dots> = mset (map snd (enumerate 0 st))" by (rule mset_map [symmetric])
  also have "\<dots> = mset st" by (simp only: map_snd_enumerate)
  finally have m: "mset (map snd ?ps) = mset st" .
  have "sorted_wrt (\<lambda>p q. createdAt (snd q) \<le> createdAt (snd p)) ?ps"
    using sorted_sort_newest [of "rank q" "enumerate 0 st"]
    by (rule sorted_wrt_mono_rel [rotated]) (simp add: newer_date)
  then have s: "sorted_wrt (\<lambda>a c. createdAt c \<le> createdAt a) (map snd ?ps)"
    by (simp add: sorted_wrt_map)
  from assms m s show ?thesis by (simp add: find_sorted_def)
qed

lemma find_sorted_rejected: "\<not> resolves q \<Longrightarrow> find_sorted q st = Inl ReadError"
  by (simp add: find_sorted_def)

text \<open>
  Two listings, newest first, of the same documents are the same list when no two
  documents have the same date.
\<close>

lemma newest_first_unique:
  assumes "sorted_wrt (\<lambda>a c. createdAt c \<le> createdAt a) xs"
    and "sorted_wrt (\<lambda>a c. createdAt c \<le> createdAt a) ys"
    and "mset xs = mset ys"
    and "distinct (map createdAt xs)"
  shows "xs = ys"
proof -
  let ?f = "\<lambda>b. - createdAt b"
  have dy: "distinct (map createdAt ys)"
    using assms(3,4) mset_eq_imp_distinct_iff [of "map createdAt xs" "map createdAt ys"]
    by simp
  have sets: "set xs = set ys" using assms(3) by (rule mset_eq_setD)
  have inj: "inj_on ?f (set xs \<union> set ys)"
    using assms(4) sets by (auto simp: distinct_map inj_on_def)
  have sx: "sorted (map ?f xs)"
    using assms(1) by (simp add: sorted_wrt_map)
  have sy: "sorted (map ?f ys)"
    using assms(2) by (simp add: sorted_wrt_map)
  have dx': "distinct (map ?f xs)"
    using assms(4) by (auto simp: distinct_map inj_on_def)
  have dy': "distinct (map ?f ys)"
    using dy by (auto simp: distinct_map inj_on_def)
  from inj sx dx' sy dy' sets show ?thesis by (rule map_sorted_distinct_set_unique)
qed

text \<open>
  With no two documents of the same date, the answer of a query that resolves depends
  neither on the ranking nor on the order of the collection.
\<close>

lemma find_sorted_unique:
  assumes "resolves q" and "resolves q'" and "mset st' = mset st"
    and "distinct (map createdAt st)"
  shows "find_sorted q' st' = find_sorted q st"
proof -
  from find_sorted_resolves [OF assms(1), of st] obtain bs where
    bs: "find_sorted q st = Inr bs" "mset bs = mset st"
        "sorted_wrt (\<lambda>a c. createdAt c \<le> createdAt a) bs"
    by blast
  from find_sorted_resolves [OF assms(2), of st'] obtain bs' where
    bs': "find_sorted q' st' = Inr bs'" "mset bs' = mset st'"
         "sorted_wrt (\<lambda>a c. createdAt c \<le> createdAt a) bs'"
    by blast
  have d: "distinct (map createdAt bs)"
    using assms(4) bs(2) mset_eq_imp_distinct_iff [of "map createdAt bs" "map createdAt st"]
    by simp
  have "mset bs = mset bs'" using bs(2) bs'(2) assms(3) by simp
  from bs(3) bs'(3) this d have "bs = bs'" by (rule newest_first_unique)
  with bs(1) bs'(1) show ?thesis by simp
qed

lemma get_blog_state: "snd (get_blog q w) = w"
  by (simp add: get_blog_def split: sum.splits)

section \<open>The claims\<close>

text \<open>
  C1, as amended. When \<open>generateBlog\<close> has built its prompt (the title and details
  interpolate) and the call of the inference API throws, \<open>generateBlog\<close> still returns a
  record: the plain object with the title and the details of the call and the content
  "Failed to generate blog.". The record is returned only: nothing is written, and the
  collection is as it was before the call.
\<close>

theorem generateBlog_api_failure_placeholder:
  assumes "interpolates ttl" and "interpolates dtl"
    and "api (env (api_calls w)) = Inl err"
  shows "fst (generateBlog env ttl dtl w) = Inr (placeholder ttl dtl) \<and>
         result_content (placeholder ttl dtl) = JStr (ascii ''Failed to generate blog.'') \<and>
         store (snd (generateBlog env ttl dtl w)) = store w"
proof -
  have "attempt (env (api_calls w)) ttl dtl (store w) = Inl err"
    using assms(3) by (rule attempt_api_fails)
  with assms(1,2) have "generateBlog env ttl dtl w =
      (Inr (placeholder ttl dtl), \<lparr>store = store w, api_calls = Suc (api_calls w)\<rparr>)"
    by (rule generateBlog_failure)
  then show ?thesis by (simp add: placeholder_def failed_def)
qed

text \<open>C1, witness: the second call of the sample outside, whose API call throws.\<close>

theorem generateBlog_api_failure_placeholder_witness:
  "interpolates (JStr (ascii ''Maps'')) \<and> interpolates (JStr (ascii ''lookup'')) \<and>
   api (sample_env (api_calls \<lparr>store = [], api_calls = 1\<rparr>)) = Inl ApiError \<and>
   fst (generateBlog sample_env (JStr (ascii ''Maps'')) (JStr (ascii ''lookup''))
          \<lparr>store = [], api_calls = 1\<rparr>)
     = Inr (Plain [(ascii ''title'', JStr (ascii ''Maps'')),
                   (ascii ''details'', JStr (ascii ''lookup'')),
                   (ascii ''content'', JStr (ascii ''Failed to generate blog.''))]) \<and>
   store (snd (generateBlog sample_env (JStr (ascii ''Maps'')) (JStr (ascii ''lookup''))
                 \<lparr>store = [], api_calls = 1\<rparr>)) = []"
  using generateBlog_api_failure_placeholder
    [where env = sample_env and w = "\<lparr>store = [], api_calls = 1\<rparr>" and err = ApiError
       and ttl = "JStr (ascii ''Maps'')" and dtl = "JStr (ascii ''lookup'')"]
  by (simp add: sample_env_def placeholder_def failed_def)

text \<open>
  C1, as stated, fails: the API call throws, the placeholder is returned, and the
  collection, empty before the call, is empty after it. No record was persisted.
\<close>

theorem generateBlog_api_failure_not_persisted:
  "api (sample_env 1) = Inl ApiError \<and>
   fst (generateBlog sample_env (JStr (ascii ''Maps'')) (JStr (ascii ''lookup''))
      \<lparr>store = [], api_calls = 1\<rparr>) =
     Inr (Plain [(ascii ''title'', JStr (ascii ''Maps'')),
                 (ascii ''details'', JStr (ascii ''lookup'')),
                 (ascii ''content'', JStr (ascii ''Failed to generate blog.''))]) \<and>
   store (snd (generateBlog sample_env (JStr (ascii ''Maps'')) (JStr (ascii ''lookup''))
      \<lparr>store = [], api_calls = 1\<rparr>)) = []"
  by (simp add: generateBlog_def attempt_def sample_env_def placeholder_def failed_def)

text \<open>
  C2. For a request whose body has under \<open>blogs\<close> a list of \<open>N\<close> title and details pairs
  (no item nullish, titles and details that interpolate; \<open>N\<close> from 0 on), whatever the
  outside does, the answer has status 200 and is a list of exactly \<open>N\<close> results, in the
  order of the items: the \<open>i\<close>-th result is what \<open>generateBlog\<close> returns for the title
  and details of the \<open>i\<close>-th item, called in the state left by the items before it.
\<close>

theorem post_generate_results_in_order:
  assumes "\<not> nullish body" and "own (ascii ''blogs'') body = JArr items"
    and "\<forall>b\<in>set items. pair_ok b"
  shows "\<exists>results. fst (post_generate env body w) = \<lparr>status = 200, payload = Generated results\<rparr> \<and>
           length results = length items \<and>
           (\<forall>i<length items. Inr (results ! i) =
              fst (generateBlog env (own (ascii ''title'') (items ! i))
                     (own (ascii ''details'') (items ! i))
                     (snd (generate_loop env (take i items) [] w))))"
proof -
  from loop_valid [OF assms(3), of env "[]" w] obtain rs where
    rs: "generate_loop env items [] w = (Inr rs, snd (generate_loop env items [] w))"
    and len: "length rs = length items"
    and nth: "\<forall>i<length items. Inr (rs ! i) =
            fst (generateBlog env (own (ascii ''title'') (items ! i))
                   (own (ascii ''details'') (items ! i))
                   (snd (generate_loop env (take i items) [] w)))"
    by auto
  have "fst (post_generate env body w) = \<lparr>status = 200, payload = Generated rs\<rparr>"
    using post_generate_valid [OF assms(1,2), of env w] rs
    by (simp split: prod.splits sum.splits)
  with len nth show ?thesis by blast
qed

text \<open>C2, witness: the sample batch of three pairs, and its second result.\<close>

theorem post_generate_results_in_order_witness:
  "\<not> nullish sample_request \<and> own (ascii ''blogs'') sample_request = JArr sample_items \<and>
   list_all pair_ok sample_items \<and>
   (\<exists>results. fst (post_generate sample_env sample_request empty_world) =
        \<lparr>status = 200, payload = Generated results\<rparr> \<and>
      length results = 3 \<and>
      Inr (results ! 1) =
        fst (generateBlog sample_env (JStr (ascii ''Maps'')) (JStr (ascii ''lookup''))
               (snd (generate_loop sample_env (take 1 sample_items) [] empty_world))))"
proof -
  have h1: "\<not> nullish sample_request"
    and h2: "own (ascii ''blogs'') sample_request = JArr sample_items"
    and h3: "\<forall>b\<in>set sample_items. pair_ok b"
    using sample_valid by simp_all
  from post_generate_results_in_order [OF h1 h2 h3, of sample_env empty_world]
  obtain results where
    r: "fst (post_generate sample_env sample_request empty_world) =
          \<lparr>status = 200, payload = Generated results\<rparr>"
       "length results = length sample_items"
       "\<forall>i<length sample_items. Inr (results ! i) =
          fst (generateBlog sample_env (own (ascii ''title'') (sample_items ! i))
                 (own (ascii ''details'') (sample_items ! i))
                 (snd (generate_loop sample_env (take i sample_items) [] empty_world)))"
    by blast
  have len: "length sample_items = 3" by (simp add: sample_items_def)
  have t: "own (ascii ''title'') (sample_items ! 1) = JStr (ascii ''Maps'')"
    and d: "own (ascii ''details'') (sample_items ! 1) = JStr (ascii ''lookup'')"
    by (simp_all add: sample_items_def sample_pair_def)
  from r(3) len have "Inr (results ! 1) =
      fst (generateBlog sample_env (own (ascii ''title'') (sample_items ! 1))
             (own (ascii ''details'') (sample_items ! 1))
             (snd (generate_loop sample_env (take 1 sample_items) [] empty_world)))"
    by simp
  with t d r(1,2) len h1 h2 h3 show ?thesis by (simp add: list_all_iff)
qed

text \<open>
  C3, as amended. For every state of the collection, when the query resolves, \<open>GET /blog\<close>
  answers 200 with all the stored documents (the same documents, each as often as it is
  stored), sorted by \<open>createdAt\<close> in descending order. The order of insertion does not
  matter: a collection with the same documents written in another order gives the same
  answer, when no two documents have the same date.
\<close>

theorem get_blog_newest_first:
  assumes "resolves q"
  shows "\<exists>bs. fst (get_blog q w) = Inr \<lparr>status = 200, payload = Listing bs\<rparr> \<and>
        mset bs = mset (store w) \<and>
        sorted_wrt (\<lambda>a c. createdAt c \<le> createdAt a) bs \<and>
        (\<forall>q' w'. resolves q' \<and> mset (store w') = mset (store w) \<and>
                 distinct (map createdAt (store w)) \<longrightarrow>
              fst (get_blog q' w') = fst (get_blog q w))"
proof -
  from find_sorted_resolves [OF assms, of "store w"] obtain bs where
    bs: "find_sorted q (store w) = Inr bs" "mset bs = mset (store w)"
        "sorted_wrt (\<lambda>a c. createdAt c \<le> createdAt a) bs"
    by blast
  have same: "fst (get_blog q' w') = fst (get_blog q w)"
    if "resolves q' \<and> mset (store w') = mset (store w) \<and> distinct (map createdAt (store w))"
    for q' and w' :: world
  proof -
    from that have "find_sorted q' (store w') = find_sorted q (store w)"
      using find_sorted_unique [OF assms, of q' "store w'" "store w"] by simp
    then show ?thesis by (simp add: get_blog_def split: sum.splits)
  qed
  have "fst (get_blog q w) = Inr \<lparr>status = 200, payload = Listing bs\<rparr>"
    using bs(1) by (simp add: get_blog_def)
  with bs(2,3) same show ?thesis by blast
qed

text \<open>
  C3, witness: three documents written out of the order of their dates are listed the
  newest first, and so are the same documents written in another order and read with
  another ranking.
\<close>

theorem get_blog_newest_first_witness:
  "resolves sample_read \<and> resolves other_read \<and>
   fst (get_blog sample_read shelf) =
     Inr \<lparr>status = 200,
          payload = Listing [sample_doc ''c'' 3000, sample_doc ''b'' 2000, sample_doc ''a'' 1000]\<rparr> \<and>
   mset (store shelf') = mset (store shelf) \<and> distinct (map createdAt (store shelf)) \<and>
   fst (get_blog other_read shelf') = fst (get_blog sample_read shelf)"
proof -
  have r: "resolves sample_read" and r': "resolves other_read"
    by (simp_all add: sample_read_def other_read_def)
  have h: "mset (store shelf') = mset (store shelf) \<and> distinct (map createdAt (store shelf))"
    by (simp add: shelf_def shelf'_def sample_doc_def)
  from get_blog_newest_first [OF r, of shelf] r' h
  have "fst (get_blog other_read shelf') = fst (get_blog sample_read shelf)"
    by blast
  moreover have "fst (get_blog sample_read shelf) =
     Inr \<lparr>status = 200,
          payload = Listing [sample_doc ''c'' 3000, sample_doc ''b'' 2000, sample_doc ''a'' 1000]\<rparr>"
    by (simp add: get_blog_def find_sorted_def sample_read_def shelf_def sample_doc_def
        enumerate_eq_zip newer_def upt_rec)
  ultimately show ?thesis using r r' h by simp
qed

text \<open>
  C3, as stated, fails: the query is rejected, and the route, which awaits it outside
  any \<open>try\<close> block, throws: it answers with no list of the three stored documents.
\<close>

theorem get_blog_rejected_query:
  "length (store shelf) = 3 \<and> fst (get_blog failed_read shelf) = Inl ReadError"
  by (simp add: get_blog_def find_sorted_def failed_read_def shelf_def)

text \<open>
  C4. For a request with a body, \<open>POST /generate\<close> answers 400 exactly when the field
  \<open>blogs\<close> of the body is missing or is not an array; the answer then carries the error
  message, and the shared state is untouched: no call of the API and no write. The
  bodies \<open>{}\<close> and \<open>{ blogs: "not-an-array" }\<close> are answered so.
\<close>

theorem post_generate_bad_request:
  assumes "\<not> nullish body"
  shows "(status (fst (post_generate env body w)) = 400 \<longleftrightarrow>
            own (ascii ''blogs'') body = JUndefined \<or> \<not> isArray (own (ascii ''blogs'') body)) \<and>
         (status (fst (post_generate env body w)) = 400 \<longrightarrow>
            post_generate env body w = (bad_request, w)) \<and>
         post_generate env (JObj []) w = (bad_request, w) \<and>
         post_generate env (JObj [(ascii ''blogs'', JStr (ascii ''not-an-array''))]) w =
           (bad_request, w)"
proof -
  have not_array: "post_generate env body w = (bad_request, w)"
    if "\<not> isArray (own (ascii ''blogs'') body)"
    using assms that by (simp add: post_generate_def get_prop_def)
  have array: "status (fst (post_generate env body w)) \<noteq> 400"
    if "isArray (own (ascii ''blogs'') body)"
  proof -
    from that obtain items where "own (ascii ''blogs'') body = JArr items"
      by (cases "own (ascii ''blogs'') body") auto
    from post_generate_valid [OF assms this, of env w] show ?thesis
      by (simp add: server_error_def split: prod.splits sum.splits)
  qed
  have undef: "\<not> isArray (own (ascii ''blogs'') body)"
    if "own (ascii ''blogs'') body = JUndefined"
    using that by simp
  have iff: "status (fst (post_generate env body w)) = 400 \<longleftrightarrow>
            own (ascii ''blogs'') body = JUndefined \<or> \<not> isArray (own (ascii ''blogs'') body)"
    using not_array array undef by (auto simp: bad_request_def)
  have imp: "status (fst (post_generate env body w)) = 400 \<longrightarrow>
            post_generate env body w = (bad_request, w)"
    using not_array array by blast
  have e1: "post_generate env (JObj []) w = (bad_request, w)"
    by (simp add: post_generate_def get_prop_def)
  have e2: "post_generate env (JObj [(ascii ''blogs'', JStr (ascii ''not-an-array''))]) w =
      (bad_request, w)"
    by (simp add: post_generate_def get_prop_def)
  from iff imp e1 e2 show ?thesis by blast
qed

text \<open>
  C4, witness: a body whose \<open>blogs\<close> is a number is answered 400 and leaves the state as
  it was; the sample batch is not answered 400.
\<close>

theorem post_generate_bad_request_witness:
  "\<not> nullish (JObj [(ascii ''blogs'', JNum 7)]) \<and> \<not> nullish sample_request \<and>
   status (fst (post_generate sample_env (JObj [(ascii ''blogs'', JNum 7)]) shelf)) = 400 \<and>
   post_generate sample_env (JObj [(ascii ''blogs'', JNum 7)]) shelf = (bad_request, shelf) \<and>
   status (fst (post_generate sample_env sample_request shelf)) \<noteq> 400 \<and>
   post_generate sample_env (JObj []) shelf = (bad_request, shelf) \<and>
   post_generate sample_env (JObj [(ascii ''blogs'', JStr (ascii ''not-an-array''))]) shelf =
     (bad_request, shelf)"
proof -
  have h1: "\<not> nullish (JObj [(ascii ''blogs'', JNum 7)])" and h2: "\<not> nullish sample_request"
    by (simp_all add: sample_request_def)
  from post_generate_bad_request [OF h1, of sample_env shelf]
       post_generate_bad_request [OF h2, of sample_env shelf] h1 h2
  show ?thesis by (simp add: sample_request_def)
qed

text \<open>
  C5, as amended. For every generation call in which the call of the API succeeds with a
  reply whose first message has a string as content, or none, and in which the save
  resolves, a record is persisted, appended to the collection and returned: its content
  is a non-empty string, and its title and details equal the title and details given as
  input, when these are strings (or absent). The API is called when the prompt was
  built: the title and details interpolate.
\<close>

theorem generateBlog_success_persists:
  assumes "interpolates ttl" and "interpolates dtl"
    and "api (env (api_calls w)) = Inr r"
    and "text_or_absent (first_message r)"
    and "save_resolves (env (api_calls w)) ttl dtl"
  shows "\<exists>b s. fst (generateBlog env ttl dtl w) = Inr (Document b) \<and>
           store (snd (generateBlog env ttl dtl w)) = store w @ [b] \<and>
           content b = JStr s \<and> s \<noteq> [] \<and>
           (text_or_absent ttl \<longrightarrow> title b = ttl) \<and>
           (text_or_absent dtl \<longrightarrow> details b = dtl)"
proof -
  let ?e = "env (api_calls w)"
  from assms(4) obtain c where c: "extract_content r = Inr c"
    by (cases "first_message r") (simp_all add: extract_content_def)
  then obtain s where s: "c = JStr s" "s \<noteq> []" using extract_nonempty by blast
  from attempt_success [OF assms(3) c assms(5), of "store w"] obtain b where
    b: "attempt ?e ttl dtl (store w) = Inr (b, store w @ [b])" "content b = c"
       "cast_String ?e ttl = Some (title b)" "cast_String ?e dtl = Some (details b)"
    by blast
  have g: "generateBlog env ttl dtl w =
      (Inr (Document b), \<lparr>store = store w @ [b], api_calls = Suc (api_calls w)\<rparr>)"
    using assms(1,2) b(1) by (rule generateBlog_success)
  have "text_or_absent ttl \<longrightarrow> title b = ttl" using b(3) cast_text [of ttl ?e] by auto
  moreover have "text_or_absent dtl \<longrightarrow> details b = dtl" using b(4) cast_text [of dtl ?e] by auto
  ultimately show ?thesis using g b(2) s by simp
qed

text \<open>C5, witness: the first call of the sample outside, on the empty collection.\<close>

theorem generateBlog_success_persists_witness:
  "interpolates (JStr (ascii ''Sets'')) \<and> interpolates (JStr (ascii ''basics'')) \<and>
   api (sample_env (api_calls empty_world)) = Inr (chat_reply (ascii ''  Hello  '')) \<and>
   text_or_absent (first_message (chat_reply (ascii ''  Hello  ''))) \<and>
   save_resolves (sample_env (api_calls empty_world)) (JStr (ascii ''Sets''))
     (JStr (ascii ''basics'')) \<and>
   text_or_absent (JStr (ascii ''Sets'')) \<and> text_or_absent (JStr (ascii ''basics'')) \<and>
   (\<exists>b s. fst (generateBlog sample_env (JStr (ascii ''Sets'')) (JStr (ascii ''basics''))
                 empty_world) = Inr (Document b) \<and>
          store (snd (generateBlog sample_env (JStr (ascii ''Sets'')) (JStr (ascii ''basics''))
                 empty_world)) = [b] \<and>
          content b = JStr s \<and> s \<noteq> [] \<and>
          title b = JStr (ascii ''Sets'') \<and> details b = JStr (ascii ''basics''))"
proof -
  have i1: "interpolates (JStr (ascii ''Sets''))" and i2: "interpolates (JStr (ascii ''basics''))"
    by simp_all
  have h1: "api (sample_env (api_calls empty_world)) = Inr (chat_reply (ascii ''  Hello  ''))"
    by (simp add: sample_env_def empty_world_def)
  have h2: "text_or_absent (first_message (chat_reply (ascii ''  Hello  '')))"
    by (simp add: first_message_def chat_reply_def opt_prop_def)
  have h3: "save_resolves (sample_env (api_calls empty_world)) (JStr (ascii ''Sets''))
      (JStr (ascii ''basics''))"
    by (simp add: save_resolves_def sample_env_def empty_world_def)
  from generateBlog_success_persists
    [where env = sample_env and w = empty_world, OF i1 i2 h1 h2 h3] h1 h2 h3
  show ?thesis by (simp add: empty_world_def)
qed

text \<open>
  C5, as stated, fails: the call of the API succeeds, the write of \<open>blog.save()\<close> is
  rejected, the \<open>catch\<close> block returns the placeholder, and the collection, empty before
  the call, is empty after it.
\<close>

theorem generateBlog_write_failure_not_persisted:
  "api (sample_env 2) = Inr (chat_reply (ascii ''  Hello  '')) \<and>
   fst (generateBlog sample_env (JStr (ascii ''Loops'')) (JStr (ascii ''for and while''))
          \<lparr>store = [], api_calls = 2\<rparr>) =
     Inr (placeholder (JStr (ascii ''Loops'')) (JStr (ascii ''for and while''))) \<and>
   store (snd (generateBlog sample_env (JStr (ascii ''Loops'')) (JStr (ascii ''for and while''))
          \<lparr>store = [], api_calls = 2\<rparr>)) = []"
  by (simp add: generateBlog_def attempt_def sample_env_def chat_reply_def extract_content_def
      first_message_def opt_prop_def or_else_def new_Blog_def save_def trim_def white_def
      ascii_def)

text \<open>
  C6, as amended. For every batch of items that are not nullish and whose titles and
  details interpolate, and whatever the outside does, a failure inside the \<open>try\<close> block
  of \<open>generateBlog\<close> does not abort the batch: the answer has status 200 and one entry
  for each submitted item, every item is processed (each costs one call of the API),
  and at each position whose call of the API throws, and more generally at each
  position whose \<open>try\<close> block fails, the entry is the placeholder of that item.
\<close>

theorem post_generate_isolates_failures:
  assumes "\<not> nullish body" and "own (ascii ''blogs'') body = JArr items"
    and "\<forall>b\<in>set items. pair_ok b"
  shows "\<exists>results. fst (post_generate env body w) = \<lparr>status = 200, payload = Generated results\<rparr> \<and>
           length results = length items \<and>
           api_calls (snd (post_generate env body w)) = api_calls w + length items \<and>
           (\<forall>i<length items. (\<exists>err. api (env (api_calls w + i)) = Inl err) \<longrightarrow>
              results ! i = placeholder (own (ascii ''title'') (items ! i))
                              (own (ascii ''details'') (items ! i))) \<and>
           (\<forall>i<length items.
              (\<exists>err st. attempt (env (api_calls w + i)) (own (ascii ''title'') (items ! i))
                           (own (ascii ''details'') (items ! i)) st = Inl err) \<longrightarrow>
              results ! i = placeholder (own (ascii ''title'') (items ! i))
                              (own (ascii ''details'') (items ! i)))"
proof -
  from loop_valid [OF assms(3), of env "[]" w] obtain rs where
    rs: "generate_loop env items [] w = (Inr rs, snd (generate_loop env items [] w))"
    and len: "length rs = length items"
    and calls: "api_calls (snd (generate_loop env items [] w)) = api_calls w + length items"
    and nth: "\<forall>i<length items. Inr (rs ! i) =
            fst (generateBlog env (own (ascii ''title'') (items ! i))
                   (own (ascii ''details'') (items ! i))
                   (snd (generate_loop env (take i items) [] w)))"
    by auto
  have post: "post_generate env body w =
      (\<lparr>status = 200, payload = Generated rs\<rparr>, snd (generate_loop env items [] w))"
    using post_generate_valid [OF assms(1,2), of env w] rs
    by (simp split: prod.splits sum.splits)
  have failed_at: "rs ! i = placeholder (own (ascii ''title'') (items ! i))
      (own (ascii ''details'') (items ! i))"
    if i: "i < length items"
      and err: "attempt (env (api_calls w + i)) (own (ascii ''title'') (items ! i))
                  (own (ascii ''details'') (items ! i)) st = Inl err" for i err st
  proof -
    let ?t = "own (ascii ''title'') (items ! i)" and ?d = "own (ascii ''details'') (items ! i)"
    let ?wi = "snd (generate_loop env (take i items) [] w)"
    have ok: "pair_ok (items ! i)" using assms(3) i by simp
    then have it: "interpolates ?t" and id: "interpolates ?d" by (simp_all add: pair_ok_def)
    have "\<forall>b\<in>set (take i items). pair_ok b"
      using assms(3) by (auto dest: in_set_takeD)
    from loop_valid [OF this, of env "[]" w] i
    have "api_calls ?wi = api_calls w + i" by auto
    moreover have "attempt (env (api_calls w + i)) ?t ?d (store ?wi) = Inl err"
      using err by (rule attempt_Inl_any_store)
    ultimately have "attempt (env (api_calls ?wi)) ?t ?d (store ?wi) = Inl err"
      by simp
    with it id have "fst (generateBlog env ?t ?d ?wi) = Inr (placeholder ?t ?d)"
      by (simp add: generateBlog_failure)
    moreover from nth i have "Inr (rs ! i) = fst (generateBlog env ?t ?d ?wi)" by blast
    ultimately have "Inr (rs ! i) = (Inr (placeholder ?t ?d) :: error + result)" by simp
    then show ?thesis by simp
  qed
  have api_failed_at:
    "rs ! i = placeholder (own (ascii ''title'') (items ! i)) (own (ascii ''details'') (items ! i))"
    if i: "i < length items" and err: "api (env (api_calls w + i)) = Inl err" for i err
    using failed_at [OF i attempt_api_fails [OF err]] .
  show ?thesis
  proof (intro exI [of _ rs] conjI allI impI)
    show "fst (post_generate env body w) = \<lparr>status = 200, payload = Generated rs\<rparr>"
      using post by simp
    show "length rs = length items" by (rule len)
    show "api_calls (snd (post_generate env body w)) = api_calls w + length items"
      using post calls by simp
    show "rs ! i = placeholder (own (ascii ''title'') (items ! i))
        (own (ascii ''details'') (items ! i))"
      if "i < length items" and "\<exists>err. api (env (api_calls w + i)) = Inl err" for i
      using that api_failed_at by blast
    show "rs ! i = placeholder (own (ascii ''title'') (items ! i))
        (own (ascii ''details'') (items ! i))"
      if "i < length items"
        and "\<exists>err st. attempt (env (api_calls w + i)) (own (ascii ''title'') (items ! i))
                         (own (ascii ''details'') (items ! i)) st = Inl err" for i
      using that failed_at by blast
  qed
qed

text \<open>
  C6, witness: in the sample batch the call of the API throws for the second item and the
  write fails for the third; the answer has three entries, three calls were made, and
  the second and third entries are placeholders.
\<close>

theorem post_generate_isolates_failures_witness:
  "\<not> nullish sample_request \<and> own (ascii ''blogs'') sample_request = JArr sample_items \<and>
   list_all pair_ok sample_items \<and>
   api (sample_env (api_calls empty_world + 1)) = Inl ApiError \<and>
   attempt (sample_env (api_calls empty_world + 2)) (JStr (ascii ''Loops''))
     (JStr (ascii ''for and while'')) [] = Inl WriteError \<and>
   (\<exists>results. fst (post_generate sample_env sample_request empty_world) =
        \<lparr>status = 200, payload = Generated results\<rparr> \<and>
      length results = 3 \<and>
      api_calls (snd (post_generate sample_env sample_request empty_world)) = 3 \<and>
      results ! 1 = placeholder (JStr (ascii ''Maps'')) (JStr (ascii ''lookup'')) \<and>
      results ! 2 = placeholder (JStr (ascii ''Loops'')) (JStr (ascii ''for and while'')))"
proof -
  have h1: "\<not> nullish sample_request"
    and h2: "own (ascii ''blogs'') sample_request = JArr sample_items"
    and h3: "\<forall>b\<in>set sample_items. pair_ok b"
    using sample_valid by simp_all
  from post_generate_isolates_failures [OF h1 h2 h3, of sample_env empty_world]
  obtain results where
    r: "fst (post_generate sample_env sample_request empty_world) =
          \<lparr>status = 200, payload = Generated results\<rparr>"
       "length results = length sample_items"
       "api_calls (snd (post_generate sample_env sample_request empty_world)) =
          api_calls empty_world + length sample_items"
       "\<forall>i<length sample_items. (\<exists>err. api (sample_env (api_calls empty_world + i)) = Inl err) \<longrightarrow>
          results ! i = placeholder (own (ascii ''title'') (sample_items ! i))
                          (own (ascii ''details'') (sample_items ! i))"
       "\<forall>i<length sample_items.
          (\<exists>err st. attempt (sample_env (api_calls empty_world + i))
                       (own (ascii ''title'') (sample_items ! i))
                       (own (ascii ''details'') (sample_items ! i)) st = Inl err) \<longrightarrow>
          results ! i = placeholder (own (ascii ''title'') (sample_items ! i))
                          (own (ascii ''details'') (sample_items ! i))"
    by blast
  have len: "length sample_items = 3" by (simp add: sample_items_def)
  have t1: "own (ascii ''title'') (sample_items ! 1) = JStr (ascii ''Maps'')"
    and d1: "own (ascii ''details'') (sample_items ! 1) = JStr (ascii ''lookup'')"
    and t2: "own (ascii ''title'') (sample_items ! 2) = JStr (ascii ''Loops'')"
    and d2: "own (ascii ''details'') (sample_items ! 2) = JStr (ascii ''for and while'')"
    by (simp_all add: sample_items_def sample_pair_def)
  have down: "api (sample_env (api_calls empty_world + 1)) = Inl ApiError"
    by (simp add: sample_env_def empty_world_def)
  have rejected: "attempt (sample_env (api_calls empty_world + 2)) (JStr (ascii ''Loops''))
      (JStr (ascii ''for and while'')) [] = Inl WriteError"
    by (simp add: attempt_def sample_env_def empty_world_def chat_reply_def
        extract_content_def first_message_def opt_prop_def or_else_def new_Blog_def save_def
        trim_def white_def ascii_def)
  from r(4) len down have p1: "results ! 1 =
      placeholder (own (ascii ''title'') (sample_items ! 1))
        (own (ascii ''details'') (sample_items ! 1))"
    by auto
  have "2 < length sample_items" using len by simp
  moreover have "\<exists>err st. attempt (sample_env (api_calls empty_world + 2))
      (own (ascii ''title'') (sample_items ! 2)) (own (ascii ''details'') (sample_items ! 2)) st
        = Inl err"
    using rejected t2 d2 by auto
  ultimately have p2: "results ! 2 =
      placeholder (own (ascii ''title'') (sample_items ! 2))
        (own (ascii ''details'') (sample_items ! 2))"
    using r(5) by blast
  from p1 p2 t1 d1 t2 d2 r(1,2,3) len down rejected h1 h2 h3
  show ?thesis by (simp add: empty_world_def list_all_iff)
qed

text \<open>
  C6, as stated, fails: in a batch of two items whose first title is an object with an
  own property \<open>toString\<close>, \<open>generateBlog\<close> throws for the first item while it builds its
  prompt, outside its \<open>try\<close> block; nothing catches the throw locally, the batch is
  aborted with status 500, no call of the API was made, and the second item was never
  processed. A batch whose first item is \<open>null\<close> is aborted likewise.
\<close>

theorem post_generate_batch_aborted:
  "fst (generateBlog sample_env odd_title (JStr (ascii ''d'')) empty_world) = Inl TypeError \<and>
   post_generate sample_env odd_request empty_world = (server_error, empty_world) \<and>
   status server_error = 500 \<and> api_calls empty_world = 0 \<and>
   post_generate sample_env
     (JObj [(ascii ''blogs'', JArr [JNull, sample_pair ''Maps'' ''lookup''])]) empty_world =
     (server_error, empty_world)"
  by (simp add: post_generate_def get_prop_def generateBlog_def odd_request_def odd_title_def
      server_error_def empty_world_def)

text \<open>
  C7, as amended. For every successful call of the API after which the save resolves, the
  content stored and returned by \<open>generateBlog\<close> is the trimmed text of the first
  returned message; if that text is absent, or trims to the empty string, the content
  is "No content generated." instead. The API is called when the prompt was built: the
  title and details interpolate.
\<close>

theorem generateBlog_content:
  assumes "interpolates ttl" and "interpolates dtl"
    and "api (env (api_calls w)) = Inr r"
    and "save_resolves (env (api_calls w)) ttl dtl"
  shows "(\<forall>s. first_message r = JStr s \<longrightarrow>
            (\<exists>b. fst (generateBlog env ttl dtl w) = Inr (Document b) \<and>
                 store (snd (generateBlog env ttl dtl w)) = store w @ [b] \<and>
                 content b =
                   JStr (if trim s = [] then ascii ''No content generated.'' else trim s))) \<and>
         (nullish (first_message r) \<longrightarrow>
            (\<exists>b. fst (generateBlog env ttl dtl w) = Inr (Document b) \<and>
                 store (snd (generateBlog env ttl dtl w)) = store w @ [b] \<and>
                 content b = JStr (ascii ''No content generated.'')))"
proof -
  have stored: "\<exists>b. fst (generateBlog env ttl dtl w) = Inr (Document b) \<and>
      store (snd (generateBlog env ttl dtl w)) = store w @ [b] \<and> content b = c"
    if c: "extract_content r = Inr c" for c
  proof -
    from attempt_success [OF assms(3) c assms(4), of "store w"] obtain b where
      b: "attempt (env (api_calls w)) ttl dtl (store w) = Inr (b, store w @ [b])"
         "content b = c"
      by blast
    have "generateBlog env ttl dtl w =
        (Inr (Document b), \<lparr>store = store w @ [b], api_calls = Suc (api_calls w)\<rparr>)"
      using assms(1,2) b(1) by (rule generateBlog_success)
    with b(2) show ?thesis by simp
  qed
  show ?thesis
  proof (intro conjI allI impI)
    fix s assume "first_message r = JStr s"
    then have "extract_content r = Inr (JStr (if trim s = [] then no_content else trim s))"
      by (rule extract_text)
    from stored [OF this]
    show "\<exists>b. fst (generateBlog env ttl dtl w) = Inr (Document b) \<and>
            store (snd (generateBlog env ttl dtl w)) = store w @ [b] \<and>
            content b = JStr (if trim s = [] then ascii ''No content generated.'' else trim s)"
      unfolding no_content_def .
  next
    assume "nullish (first_message r)"
    then have "extract_content r = Inr (JStr no_content)" by (rule extract_absent)
    from stored [OF this]
    show "\<exists>b. fst (generateBlog env ttl dtl w) = Inr (Document b) \<and>
            store (snd (generateBlog env ttl dtl w)) = store w @ [b] \<and>
            content b = JStr (ascii ''No content generated.'')"
      unfolding no_content_def .
  qed
qed

text \<open>
  C7, witness: the reply "  Hello  " is stored and returned as "Hello"; a reply without
  choices, a reply of a space and a line feed, and a reply of one no-break space give
  "No content generated.".
\<close>

theorem generateBlog_content_witness:
  "interpolates (JStr (ascii ''Sets'')) \<and> interpolates (JStr (ascii ''basics'')) \<and>
   api (sample_env (api_calls empty_world)) = Inr (chat_reply (ascii ''  Hello  '')) \<and>
   save_resolves (sample_env (api_calls empty_world)) (JStr (ascii ''Sets''))
     (JStr (ascii ''basics'')) \<and>
   first_message (chat_reply (ascii ''  Hello  '')) = JStr (ascii ''  Hello  '') \<and>
   (\<exists>b. fst (generateBlog sample_env (JStr (ascii ''Sets'')) (JStr (ascii ''basics''))
               empty_world) = Inr (Document b) \<and>
        store (snd (generateBlog sample_env (JStr (ascii ''Sets'')) (JStr (ascii ''basics''))
               empty_world)) = [b] \<and>
        content b = JStr (ascii ''Hello'')) \<and>
   extract_content (JObj [(ascii ''choices'', JArr [])]) =
     Inr (JStr (ascii ''No content generated.'')) \<and>
   extract_content (chat_reply [0x0020, 0x000A]) = Inr (JStr (ascii ''No content generated.'')) \<and>
   extract_content (chat_reply [0x00A0]) = Inr (JStr (ascii ''No content generated.''))"
proof -
  have i1: "interpolates (JStr (ascii ''Sets''))" and i2: "interpolates (JStr (ascii ''basics''))"
    by simp_all
  have h1: "api (sample_env (api_calls empty_world)) = Inr (chat_reply (ascii ''  Hello  ''))"
    by (simp add: sample_env_def empty_world_def)
  have h2: "save_resolves (sample_env (api_calls empty_world)) (JStr (ascii ''Sets''))
      (JStr (ascii ''basics''))"
    by (simp add: save_resolves_def sample_env_def empty_world_def)
  have h3: "first_message (chat_reply (ascii ''  Hello  '')) = JStr (ascii ''  Hello  '')"
    by (simp add: first_message_def chat_reply_def opt_prop_def)
  have t: "trim (ascii ''  Hello  '') = ascii ''Hello''"
    by (simp add: trim_def white_def ascii_def)
  from generateBlog_content [where env = sample_env and w = empty_world, OF i1 i2 h1 h2] h3 t
  have "\<exists>b. fst (generateBlog sample_env (JStr (ascii ''Sets'')) (JStr (ascii ''basics''))
               empty_world) = Inr (Document b) \<and>
        store (snd (generateBlog sample_env (JStr (ascii ''Sets'')) (JStr (ascii ''basics''))
               empty_world)) = store empty_world @ [b] \<and>
        content b = JStr (ascii ''Hello'')"
    by (simp add: ascii_def)
  moreover have "extract_content (JObj [(ascii ''choices'', JArr [])]) =
      Inr (JStr (ascii ''No content generated.''))"
    by (simp add: extract_content_def first_message_def opt_prop_def or_else_def no_content_def)
  moreover have "extract_content (chat_reply [0x0020, 0x000A]) =
      Inr (JStr (ascii ''No content generated.''))"
    by (simp add: extract_content_def first_message_def chat_reply_def opt_prop_def or_else_def
        no_content_def trim_def white_def)
  moreover have "extract_content (chat_reply [0x00A0]) =
      Inr (JStr (ascii ''No content generated.''))"
    by (simp add: extract_content_def first_message_def chat_reply_def opt_prop_def or_else_def
        no_content_def trim_def white_def)
  ultimately show ?thesis using h1 h2 h3 by (simp add: empty_world_def)
qed

text \<open>
  C7, as stated, fails: the call of the API succeeds with the text "  Hello  ", the write
  of \<open>blog.save()\<close> is rejected, and the content returned is "Failed to generate blog.",
  not the trimmed text "Hello"; nothing is stored.
\<close>

theorem generateBlog_write_failure_content:
  "api (sample_env 2) = Inr (chat_reply (ascii ''  Hello  '')) \<and>
   first_message (chat_reply (ascii ''  Hello  '')) = JStr (ascii ''  Hello  '') \<and>
   trim (ascii ''  Hello  '') = ascii ''Hello'' \<and>
   fst (generateBlog sample_env (JStr (ascii ''Sets'')) (JStr (ascii ''basics''))
          \<lparr>store = [sample_doc ''a'' 1000], api_calls = 2\<rparr>) =
     Inr (Plain [(ascii ''title'', JStr (ascii ''Sets'')),
                 (ascii ''details'', JStr (ascii ''basics'')),
                 (ascii ''content'', JStr (ascii ''Failed to generate blog.''))]) \<and>
   store (snd (generateBlog sample_env (JStr (ascii ''Sets'')) (JStr (ascii ''basics''))
          \<lparr>store = [sample_doc ''a'' 1000], api_calls = 2\<rparr>)) = [sample_doc ''a'' 1000]"
  by (simp add: generateBlog_def attempt_def sample_env_def chat_reply_def extract_content_def
      first_message_def opt_prop_def or_else_def new_Blog_def save_def trim_def white_def
      placeholder_def failed_def ascii_def)

text \<open>
  C8, as amended. \<open>GET /blog\<close> leaves the shared state as it is, whatever happens to
  its query. A second call, with no write in between, answers with the same data as the
  first when both queries resolve and the database returns documents of the same
  \<open>createdAt\<close> by the same ranking both times; the ranking does not matter when no two
  stored documents have the same \<open>createdAt\<close>.
\<close>

theorem get_blog_idempotent:
  "snd (get_blog q1 w) = w \<and>
   (resolves q1 \<and> resolves q2 \<and>
    (rank q1 = rank q2 \<or> distinct (map createdAt (store w))) \<longrightarrow>
      fst (get_blog q2 (snd (get_blog q1 w))) = fst (get_blog q1 w))"
proof (intro conjI impI)
  show st: "snd (get_blog q1 w) = w" by (rule get_blog_state)
  assume a: "resolves q1 \<and> resolves q2 \<and>
    (rank q1 = rank q2 \<or> distinct (map createdAt (store w)))"
  have "find_sorted q2 (store w) = find_sorted q1 (store w)"
  proof (cases "rank q1 = rank q2")
    case True
    with a show ?thesis by (simp add: find_sorted_def)
  next
    case False
    with a have "distinct (map createdAt (store w))" by simp
    with a show ?thesis
      using find_sorted_unique [of q1 q2 "store w" "store w"] by simp
  qed
  then show "fst (get_blog q2 (snd (get_blog q1 w))) = fst (get_blog q1 w)"
    by (simp add: st get_blog_def split: sum.splits)
qed

text \<open>
  C8, witness: on the sample collection, whose dates differ, two queries with different
  rankings give the same answer; on the collection of two documents of one date, two
  queries with the same ranking do.
\<close>

theorem get_blog_idempotent_witness:
  "resolves sample_read \<and> resolves other_read \<and> distinct (map createdAt (store shelf)) \<and>
   snd (get_blog sample_read shelf) = shelf \<and>
   fst (get_blog other_read (snd (get_blog sample_read shelf))) = fst (get_blog sample_read shelf) \<and>
   rank sample_read = rank sample_read \<and>
   fst (get_blog sample_read (snd (get_blog sample_read twins))) = fst (get_blog sample_read twins)"
proof -
  have r: "resolves sample_read" and r': "resolves other_read"
    by (simp_all add: sample_read_def other_read_def)
  have d: "distinct (map createdAt (store shelf))"
    by (simp add: shelf_def sample_doc_def)
  have a: "snd (get_blog sample_read shelf) = shelf \<and>
      fst (get_blog other_read (snd (get_blog sample_read shelf))) =
        fst (get_blog sample_read shelf)"
    using get_blog_idempotent [of sample_read shelf other_read] r r' d by blast
  have b: "fst (get_blog sample_read (snd (get_blog sample_read twins))) =
      fst (get_blog sample_read twins)"
    using get_blog_idempotent [of sample_read twins sample_read] r by blast
  from a b r r' d show ?thesis by blast
qed

text \<open>
  C8, as stated, fails. On the sample collection a first query resolves with the three
  documents and a second one, with no write in between, is rejected: the second call
  returns no data. On the collection of two documents of one date, two queries that
  both resolve, with different rankings of the two documents, return them in different
  orders.
\<close>

theorem get_blog_twice_differs:
  "fst (get_blog sample_read shelf) =
     Inr \<lparr>status = 200,
          payload = Listing [sample_doc ''c'' 3000, sample_doc ''b'' 2000, sample_doc ''a'' 1000]\<rparr> \<and>
   fst (get_blog failed_read (snd (get_blog sample_read shelf))) = Inl ReadError \<and>
   fst (get_blog sample_read twins) =
     Inr \<lparr>status = 200, payload = Listing [sample_doc ''a'' 1000, sample_doc ''b'' 1000]\<rparr> \<and>
   fst (get_blog other_read (snd (get_blog sample_read twins))) =
     Inr \<lparr>status = 200, payload = Listing [sample_doc ''b'' 1000, sample_doc ''a'' 1000]\<rparr>"
  by (simp add: get_blog_def find_sorted_def sample_read_def other_read_def failed_read_def
      shelf_def twins_def sample_doc_def enumerate_eq_zip newer_def upt_rec)

text \<open>
  C9. No operation updates or deletes a stored record. After \<open>POST /generate\<close>, whatever
  the body and whatever the outside does, the collection is the collection of before
  with new records appended, so every record of before is still there, at its place and
  unchanged; the same holds for one call of \<open>generateBlog\<close>; and \<open>GET /blog\<close> leaves the
  collection as it is.
\<close>

theorem store_append_only:
  "(\<exists>new. store (snd (post_generate env body w)) = store w @ new) \<and>
   (\<forall>i<length (store w). store (snd (post_generate env body w)) ! i = store w ! i) \<and>
   (\<exists>new. store (snd (generateBlog env ttl dtl w)) = store w @ new) \<and>
   store (snd (get_blog q w)) = store w"
proof -
  obtain new where new: "store (snd (post_generate env body w)) = store w @ new"
    using post_generate_store by blast
  then have "\<forall>i<length (store w). store (snd (post_generate env body w)) ! i = store w ! i"
    by (simp add: nth_append)
  with new generateBlog_store [of env ttl dtl w] show ?thesis
    by (auto simp: get_blog_state)
qed

text \<open>
  C9, witness: the sample batch on the sample collection; the collection of before is
  the beginning of the collection of after, and the first record is still the first.
\<close>

theorem store_append_only_witness:
  "(\<exists>new. store (snd (post_generate sample_env sample_request shelf)) = store shelf @ new) \<and>
   0 < length (store shelf) \<and>
   store (snd (post_generate sample_env sample_request shelf)) ! 0 = sample_doc ''b'' 2000 \<and>
   store (snd (get_blog sample_read shelf)) = store shelf"
proof -
  have h: "0 < length (store shelf)" and z: "store shelf ! 0 = sample_doc ''b'' 2000"
    by (simp_all add: shelf_def)
  from store_append_only
    [of sample_env sample_request shelf "JStr (ascii ''Sets'')" "JStr (ascii ''basics'')"
        sample_read] h z
  show ?thesis by auto
qed

text \<open>
  C10. When \<open>generateBlog\<close> has built its prompt (the title and details interpolate) and
  the call of the inference API throws, the collection is left unchanged: no record is
  written for that item. The object returned carries the fields \<open>title\<close>, \<open>details\<close>
  and \<open>content\<close> and no other; it has no \<open>createdAt\<close>.
\<close>

theorem generateBlog_api_failure_no_write:
  assumes "interpolates ttl" and "interpolates dtl"
    and "api (env (api_calls w)) = Inl err"
  shows "store (snd (generateBlog env ttl dtl w)) = store w \<and>
         (\<exists>kvs. fst (generateBlog env ttl dtl w) = Inr (Plain kvs) \<and>
                map fst kvs = [ascii ''title'', ascii ''details'', ascii ''content''] \<and>
                ascii ''createdAt'' \<notin> set (map fst kvs))"
proof -
  have "attempt (env (api_calls w)) ttl dtl (store w) = Inl err"
    using assms(3) by (rule attempt_api_fails)
  with assms(1,2) have "generateBlog env ttl dtl w =
      (Inr (placeholder ttl dtl), \<lparr>store = store w, api_calls = Suc (api_calls w)\<rparr>)"
    by (rule generateBlog_failure)
  then show ?thesis by (simp add: placeholder_def)
qed

text \<open>C10, witness: a failing call on the sample collection, for an item without title.\<close>

theorem generateBlog_api_failure_no_write_witness:
  "interpolates JUndefined \<and> interpolates (JStr (ascii ''lookup'')) \<and>
   api (sample_env (api_calls \<lparr>store = store shelf, api_calls = 1\<rparr>)) = Inl ApiError \<and>
   store (snd (generateBlog sample_env JUndefined (JStr (ascii ''lookup''))
       \<lparr>store = store shelf, api_calls = 1\<rparr>)) = store shelf \<and>
   (\<exists>kvs. fst (generateBlog sample_env JUndefined (JStr (ascii ''lookup''))
               \<lparr>store = store shelf, api_calls = 1\<rparr>) = Inr (Plain kvs) \<and>
          map fst kvs = [ascii ''title'', ascii ''details'', ascii ''content''] \<and>
          ascii ''createdAt'' \<notin> set (map fst kvs))"
  using generateBlog_api_failure_no_write
    [where env = sample_env and w = "\<lparr>store = store shelf, api_calls = 1\<rparr>" and err = ApiError
       and ttl = JUndefined and dtl = "JStr (ascii ''lookup'')"]
  by (simp add: sample_env_def)

end
